theory Spec2Isabelle
  imports Complex_Main
begin

section \<open>Conventions of the embedding\<close>

text \<open>
  The theory embeds \<^verbatim>\<open>src/gdsfactory/routing/route_dubin.py\<close>, the Dubins path planner.
  Python floats are modelled by the reals of HOL: arithmetic is exact, and rounding, NaN,
  the infinities and signed zeros are outside the model. The one infinite float of the
  source, the initial \<^verbatim>\<open>bcost = float("inf")\<close>, is a constructor of its own.
  The functions of Python's \<^verbatim>\<open>math\<close> module are modelled by their mathematical
  meaning (\<open>sin\<close>, \<open>cos\<close>, \<open>sqrt\<close>, \<open>arccos\<close>, \<open>floor\<close>, and \<open>atan2\<close> below).
  Every exception the source can raise is a value of \<open>error\<close>; a function that can raise
  returns \<open>error + 'a\<close>.
\<close>

datatype error =
    ZeroDivisionError
  | TypeError
  | UnboundLocalError
  | ValueError
  | InvalidRadiusError
  | PlanningError

text \<open>
  \<open>InvalidRadiusError\<close> and \<open>PlanningError\<close> are the error kinds the specification
  names. No line of the source raises them; they are here so that statements about them
  can be written.
\<close>

section \<open>Python strings and the math module\<close>

text \<open>
  Family codes are ASCII strings. \<^verbatim>\<open>str.islower\<close> and \<^verbatim>\<open>str.upper\<close> are modelled on the
  ASCII letters; every other character is uncased and is its own upper case.
\<close>

definition ascii_lower :: string where
  "ascii_lower = ''abcdefghijklmnopqrstuvwxyz''"

definition ascii_upper :: string where
  "ascii_upper = ''ABCDEFGHIJKLMNOPQRSTUVWXYZ''"

definition islower :: "char \<Rightarrow> bool" where
  "islower ch = (ch \<in> set ascii_lower)"

definition upper_char :: "char \<Rightarrow> char" where
  "upper_char ch = (case map_of (zip ascii_lower ascii_upper) ch of Some u \<Rightarrow> u | None \<Rightarrow> ch)"

definition upper :: "string \<Rightarrow> string" where
  "upper s = map upper_char s"

definition radians :: "real \<Rightarrow> real" where
  "radians x = x * pi / 180"

text \<open>
  \<^verbatim>\<open>math.atan2(y, x)\<close>: the angle of the point \<open>(x, y)\<close> in \<open>(-\<pi>, \<pi>]\<close>, and \<open>0\<close> at the
  origin.
\<close>

definition atan2 :: "real \<Rightarrow> real \<Rightarrow> real" where
  "atan2 y x =
     (if 0 < x then arctan (y / x)
      else if x < 0 then (if 0 \<le> y then arctan (y / x) + pi else arctan (y / x) - pi)
      else if 0 < y then pi / 2
      else if y < 0 then - (pi / 2)
      else 0)"

text \<open>Python's \<^verbatim>\<open>x % y\<close> on floats, for a divisor \<open>y \<noteq> 0\<close>.\<close>

definition pymod :: "real \<Rightarrow> real \<Rightarrow> real" where
  "pymod x y = x - y * of_int \<lfloor>x / y\<rfloor>"

section \<open>Helpers of the planner\<close>

text \<open>\<^verbatim>\<open>mod_to_pi\<close>, lines 194-196.\<close>

definition mod_to_pi :: "real \<Rightarrow> real" where
  "mod_to_pi angle = angle - 2 * pi * of_int \<lfloor>angle / 2 / pi\<rfloor>"

section \<open>The family solver\<close>

type_synonym solution = "real list \<times> string \<times> real"

text \<open>
  Lines 106-114 of \<^verbatim>\<open>general_planner\<close>: the path list, the reflection of the first and
  third measure where the family letter is lower case, and the cost.
\<close>

definition reflect :: "string \<Rightarrow> nat \<Rightarrow> real list \<Rightarrow> real list" where
  "reflect planner i path =
     (if islower (planner ! i) then path[i := 2 * pi - path ! i] else path)"

definition planner_result :: "string \<Rightarrow> string \<Rightarrow> real \<Rightarrow> real \<Rightarrow> real \<Rightarrow> solution" where
  "planner_result planner mode t p q =
     (let path = fold (reflect planner) [0, 2] [t, p, q];
          cost = sum_list (map abs path)
      in (path, mode, cost))"

text \<open>
  \<^verbatim>\<open>general_planner\<close>, lines 37-114. \<open>Inr None\<close> is the source's \<^verbatim>\<open>return None\<close> (the family
  is infeasible). A code that is none of the six families reaches \<^verbatim>\<open>path = [t, p, q]\<close>
  with the three names unbound, which raises.
\<close>

definition general_planner ::
  "string \<Rightarrow> real \<Rightarrow> real \<Rightarrow> real \<Rightarrow> error + solution option" where
  "general_planner planner alpha beta d =
     (let sa = sin alpha;
          sb = sin beta;
          ca = cos alpha;
          cb = cos beta;
          c_ab = cos (alpha - beta);
          mode = planner;
          planner_uc = upper planner
      in
      if planner_uc = ''LSL'' then
        (let tmp0 = d + sa - sb;
             p_squared = 2 + (d * d) - (2 * c_ab) + (2 * d * (sa - sb))
         in if p_squared < 0 then Inr None
            else
              (let tmp1 = atan2 (cb - ca) tmp0;
                   t = mod_to_pi (- alpha + tmp1);
                   p = sqrt p_squared;
                   q = mod_to_pi (beta - tmp1)
               in Inr (Some (planner_result planner mode t p q))))
      else if planner_uc = ''RSR'' then
        (let tmp0 = d - sa + sb;
             p_squared = 2 + (d * d) - (2 * c_ab) + (2 * d * (sb - sa))
         in if p_squared < 0 then Inr None
            else
              (let tmp1 = atan2 (ca - cb) tmp0;
                   t = mod_to_pi (alpha - tmp1);
                   p = sqrt p_squared;
                   q = mod_to_pi (- beta + tmp1)
               in Inr (Some (planner_result planner mode t p q))))
      else if planner_uc = ''LSR'' then
        (let p_squared = - 2 + (d * d) + (2 * c_ab) + (2 * d * (sa + sb))
         in if p_squared < 0 then Inr None
            else
              (let p = sqrt p_squared;
                   tmp2 = atan2 (- ca - cb) (d + sa + sb) - atan2 (- 2) p;
                   t = mod_to_pi (- alpha + tmp2);
                   q = mod_to_pi (- mod_to_pi beta + tmp2)
               in Inr (Some (planner_result planner mode t p q))))
      else if planner_uc = ''RSL'' then
        (let p_squared = (d * d) - 2 + (2 * c_ab) - (2 * d * (sa + sb))
         in if p_squared < 0 then Inr None
            else
              (let p = sqrt p_squared;
                   tmp2 = atan2 (ca + cb) (d - sa - sb) - atan2 2 p;
                   t = mod_to_pi (alpha - tmp2);
                   q = mod_to_pi (beta - tmp2)
               in Inr (Some (planner_result planner mode t p q))))
      else if planner_uc = ''RLR'' then
        (let tmp_rlr = (6 - d * d + 2 * c_ab + 2 * d * (sa - sb)) / 8
         in if \<bar>tmp_rlr\<bar> > 1 then Inr None
            else
              (let p = mod_to_pi (2 * pi - arccos tmp_rlr);
                   t = mod_to_pi (alpha - atan2 (ca - cb) (d - sa + sb) + mod_to_pi (p / 2));
                   q = mod_to_pi (alpha - beta - t + mod_to_pi p)
               in Inr (Some (planner_result planner mode t p q))))
      else if planner_uc = ''LRL'' then
        (let tmp_lrl = (6 - d * d + 2 * c_ab + 2 * d * (- sa + sb)) / 8
         in if \<bar>tmp_lrl\<bar> > 1 then Inr None
            else
              (let p = mod_to_pi (2 * pi - arccos tmp_lrl);
                   t = mod_to_pi (- alpha - atan2 (ca - cb) (d + sa - sb) + p / 2);
                   q = mod_to_pi (mod_to_pi beta - alpha - t + mod_to_pi p)
               in Inr (Some (planner_result planner mode t p q))))
      else Inl UnboundLocalError)"

section \<open>The selector\<close>

text \<open>
  The running minimum of \<^verbatim>\<open>dubins_path\<close>, lines 171-172: \<^verbatim>\<open>bcost\<close> starts at
  \<^verbatim>\<open>float("inf")\<close>, the four other names at \<^verbatim>\<open>None\<close>.
\<close>

datatype pycost = Infinity | Cost real

fun cost_gt :: "pycost \<Rightarrow> real \<Rightarrow> bool" where
  "cost_gt Infinity cost = True"
| "cost_gt (Cost b) cost = (b > cost)"

record best =
  bt :: "real option"
  bp :: "real option"
  bq :: "real option"
  bmode :: "string option"
  bcost :: pycost

definition best_init :: best where
  "best_init = \<lparr>bt = None, bp = None, bq = None, bmode = None, bcost = Infinity\<rparr>"

definition planners :: "string list" where
  "planners = [''LSL'', ''RSR'', ''LSR'', ''RSL'', ''RLR'', ''LRL'']"

text \<open>
  The body of the loop after the call of \<^verbatim>\<open>general_planner\<close>, lines 176-182. Unpacking
  \<^verbatim>\<open>(t, p, q) = path\<close> raises unless the list has three entries.
\<close>

definition loop_body :: "best \<Rightarrow> solution option \<Rightarrow> error + best" where
  "loop_body b solution =
     (case solution of
        None \<Rightarrow> Inr b
      | Some (path, mode, cost) \<Rightarrow>
          (case path of
             [t, p, q] \<Rightarrow>
               Inr (if cost_gt (bcost b) cost
                    then \<lparr>bt = Some t, bp = Some p, bq = Some q, bmode = Some mode,
                          bcost = Cost cost\<rparr>
                    else b)
           | _ \<Rightarrow> Inl ValueError))"

text \<open>The loop over the planners, lines 174-182.\<close>

fun best_loop :: "string list \<Rightarrow> real \<Rightarrow> real \<Rightarrow> real \<Rightarrow> best \<Rightarrow> error + best" where
  "best_loop [] alpha beta d b = Inr b"
| "best_loop (planner # rest) alpha beta d b =
     (case general_planner planner alpha beta d of
        Inl e \<Rightarrow> Inl e
      | Inr solution \<Rightarrow>
          (case loop_body b solution of
             Inl e \<Rightarrow> Inl e
           | Inr b' \<Rightarrow> best_loop rest alpha beta d b'))"

section \<open>Normalization and the planner\<close>

record cross_section =
  radius :: real

type_synonym config = "real \<times> real \<times> real"

type_synonym segment = "char \<times> real \<times> real"

text \<open>
  Lines 139-167 of \<^verbatim>\<open>dubins_path\<close>: the local frame, the normalized distance and the two
  angles. The float division \<^verbatim>\<open>D / c\<close> raises when \<^verbatim>\<open>c\<close> is zero.
\<close>

definition normalize_config :: "cross_section \<Rightarrow> config \<Rightarrow> config \<Rightarrow> error + (real \<times> real \<times> real)" where
  "normalize_config xs start goal =
     (case start of (sx, sy, syaw) \<Rightarrow>
      case goal of (ex, ey, eyaw) \<Rightarrow>
        (let syaw = radians syaw;
             eyaw = radians eyaw;
             c = radius xs;
             ex = ex - sx;
             ey = ey - sy;
             lex = cos syaw * ex + sin syaw * ey;
             ley = - sin syaw * ex + cos syaw * ey;
             leyaw = eyaw - syaw;
             D = sqrt (lex ^ 2 + ley ^ 2)
         in if c = 0 then Inl ZeroDivisionError
            else
              (let d = D / c;
                   theta = mod_to_pi (atan2 ley lex);
                   alpha = mod_to_pi (- theta);
                   beta = mod_to_pi (leyaw - theta)
               in Inr (alpha, beta, d))))"

text \<open>
  Line 186: \<^verbatim>\<open>list(zip(bmode, [bt * c, bp * c, bq * c], [c] * 3))\<close>. While the four names
  are still \<^verbatim>\<open>None\<close> the product \<^verbatim>\<open>bt * c\<close> raises \<^verbatim>\<open>TypeError\<close>.
\<close>

definition path_segments :: "best \<Rightarrow> real \<Rightarrow> error + segment list" where
  "path_segments b c =
     (case bmode b of
        None \<Rightarrow> Inl TypeError
      | Some mode \<Rightarrow>
          (case bt b of
             None \<Rightarrow> Inl TypeError
           | Some t \<Rightarrow>
               (case bp b of
                  None \<Rightarrow> Inl TypeError
                | Some p \<Rightarrow>
                    (case bq b of
                       None \<Rightarrow> Inl TypeError
                     | Some q \<Rightarrow>
                         Inr (zip mode (zip [t * c, p * c, q * c] (replicate 3 c)))))))"

text \<open>\<^verbatim>\<open>dubins_path\<close>, lines 137-186.\<close>

definition dubins_path :: "cross_section \<Rightarrow> config \<Rightarrow> config \<Rightarrow> error + segment list" where
  "dubins_path xs start goal =
     (case normalize_config xs start goal of
        Inl e \<Rightarrow> Inl e
      | Inr (alpha, beta, d) \<Rightarrow>
          (case best_loop planners alpha beta d best_init of
             Inl e \<Rightarrow> Inl e
           | Inr b \<Rightarrow> path_segments b (radius xs)))"

section \<open>Materialization and the entry point\<close>

text \<open>
  \<^verbatim>\<open>gds_solution\<close>, lines 234-263. The component is modelled by the list of the shapes
  it places, in the order of placement; each shape is connected to the free port of the
  one before it, the first to \<^verbatim>\<open>port1\<close>. \<open>Bend a\<close> is \<^verbatim>\<open>bend_circular(angle=a)\<close> and
  \<open>Straight l\<close> is \<^verbatim>\<open>straight(length=l)\<close>, both of the cross-section \<^verbatim>\<open>xs\<close>. The names \<open>len\<close> and \<open>rad\<close> are
  the source's \<^verbatim>\<open>length\<close> and \<^verbatim>\<open>radius\<close>.
\<close>

record port =
  center :: "real \<times> real"
  orientation :: real

datatype shape = Bend real | Straight real

fun gds_solution :: "cross_section \<Rightarrow> port \<Rightarrow> port \<Rightarrow> segment list \<Rightarrow> error + shape list" where
  "gds_solution xs port1 port2 [] = Inr []"
| "gds_solution xs port1 port2 ((mode, len, rad) # rest) =
     (if mode = CHR ''L'' then
        (if pi * rad = 0 then Inl ZeroDivisionError
         else (case gds_solution xs port1 port2 rest of
                 Inl e \<Rightarrow> Inl e
               | Inr shapes \<Rightarrow> Inr (Bend (180 * len / (pi * rad)) # shapes)))
      else if mode = CHR ''R'' then
        (if pi * rad = 0 then Inl ZeroDivisionError
         else (case gds_solution xs port1 port2 rest of
                 Inl e \<Rightarrow> Inl e
               | Inr shapes \<Rightarrow> Inr (Bend (- (180 * len / (pi * rad))) # shapes)))
      else if mode = CHR ''S'' then
        (case gds_solution xs port1 port2 rest of
           Inl e \<Rightarrow> Inl e
         | Inr shapes \<Rightarrow> Inr (Straight len # shapes))
      else Inl ValueError)"

text \<open>\<^verbatim>\<open>route_dubin\<close>, lines 13-29.\<close>

definition route_dubin :: "cross_section \<Rightarrow> port \<Rightarrow> port \<Rightarrow> error + shape list" where
  "route_dubin xs port1 port2 =
     (case center port1 of (x1, y1) \<Rightarrow>
      case center port2 of (x2, y2) \<Rightarrow>
        (let angle1 = orientation port1;
             START = (x1 / 1000, y1 / 1000, angle1);
             angle2 = orientation port2;
             angle2 = pymod (angle2 + 180) 360;
             END = (x2 / 1000, y2 / 1000, angle2)
         in case dubins_path xs START END of
              Inl e \<Rightarrow> Inl e
            | Inr path \<Rightarrow> gds_solution xs port1 port2 path))"

section \<open>Notions used in the statements\<close>

text \<open>
  The cost \<^verbatim>\<open>general_planner\<close> reports for a family code, when the family is feasible.
\<close>

definition family_cost :: "string \<Rightarrow> real \<Rightarrow> real \<Rightarrow> real \<Rightarrow> real option" where
  "family_cost planner alpha beta d =
     (case general_planner planner alpha beta d of
        Inr (Some (path, mode, cost)) \<Rightarrow> Some cost
      | _ \<Rightarrow> None)"


section \<open>The specification's formulas\<close>

text \<open>
  The definitions of this section follow the words of the specification, not the source:
  they are what the source's functions are compared with.
\<close>

text \<open>Section 4.1: \<open>canonical_angle(a) = a - 2\<pi>\<cdot>floor(a / 2\<pi>)\<close>.\<close>

definition canon :: "real \<Rightarrow> real" where
  "canon a = a - 2 * pi * of_int \<lfloor>a / (2 * pi)\<rfloor>"

text \<open>Section 4.1, the normalization of two configurations and a radius.\<close>

definition spec_normalize :: "real \<Rightarrow> config \<Rightarrow> config \<Rightarrow> real \<times> real \<times> real" where
  "spec_normalize r start goal =
     (case start of (x1, y1, heading1) \<Rightarrow>
      case goal of (x2, y2, heading2) \<Rightarrow>
        (let h1 = heading1 * pi / 180;
             h2 = heading2 * pi / 180;
             dx = x2 - x1;
             dy = y2 - y1;
             local_x = cos h1 * dx + sin h1 * dy;
             local_y = - sin h1 * dx + cos h1 * dy;
             d = sqrt (local_x\<^sup>2 + local_y\<^sup>2) / r;
             theta = canon (atan2 local_y local_x);
             alpha = canon (- theta);
             beta = canon ((h2 - h1) - theta)
         in (alpha, beta, d)))"

text \<open>Section 4.2, the table of the six families: the feasibility test and \<open>(t, p, q)\<close>.\<close>

definition spec_LSL :: "real \<Rightarrow> real \<Rightarrow> real \<Rightarrow> (real \<times> real \<times> real) option" where
  "spec_LSL alpha beta d =
     (let sa = sin alpha; sb = sin beta; ca = cos alpha; cb = cos beta;
          c_ab = cos (alpha - beta);
          p2 = 2 + d\<^sup>2 - 2 * c_ab + 2 * d * (sa - sb)
      in if p2 \<ge> 0 then
           (let p = sqrt p2;
                tmp = atan2 (cb - ca) (d + sa - sb);
                t = canon (- alpha + tmp);
                q = canon (beta - tmp)
            in Some (t, p, q))
         else None)"

definition spec_RSR :: "real \<Rightarrow> real \<Rightarrow> real \<Rightarrow> (real \<times> real \<times> real) option" where
  "spec_RSR alpha beta d =
     (let sa = sin alpha; sb = sin beta; ca = cos alpha; cb = cos beta;
          c_ab = cos (alpha - beta);
          p2 = 2 + d\<^sup>2 - 2 * c_ab + 2 * d * (sb - sa)
      in if p2 \<ge> 0 then
           (let p = sqrt p2;
                tmp = atan2 (ca - cb) (d - sa + sb);
                t = canon (alpha - tmp);
                q = canon (- beta + tmp)
            in Some (t, p, q))
         else None)"

definition spec_LSR :: "real \<Rightarrow> real \<Rightarrow> real \<Rightarrow> (real \<times> real \<times> real) option" where
  "spec_LSR alpha beta d =
     (let sa = sin alpha; sb = sin beta; ca = cos alpha; cb = cos beta;
          c_ab = cos (alpha - beta);
          p2 = - 2 + d\<^sup>2 + 2 * c_ab + 2 * d * (sa + sb)
      in if p2 \<ge> 0 then
           (let p = sqrt p2;
                tmp = atan2 (- ca - cb) (d + sa + sb) - atan2 (- 2) p;
                t = canon (- alpha + tmp);
                q = canon (- canon beta + tmp)
            in Some (t, p, q))
         else None)"

definition spec_RSL :: "real \<Rightarrow> real \<Rightarrow> real \<Rightarrow> (real \<times> real \<times> real) option" where
  "spec_RSL alpha beta d =
     (let sa = sin alpha; sb = sin beta; ca = cos alpha; cb = cos beta;
          c_ab = cos (alpha - beta);
          p2 = d\<^sup>2 - 2 + 2 * c_ab - 2 * d * (sa + sb)
      in if p2 \<ge> 0 then
           (let p = sqrt p2;
                tmp = atan2 (ca + cb) (d - sa - sb) - atan2 2 p;
                t = canon (alpha - tmp);
                q = canon (beta - tmp)
            in Some (t, p, q))
         else None)"

definition spec_RLR :: "real \<Rightarrow> real \<Rightarrow> real \<Rightarrow> (real \<times> real \<times> real) option" where
  "spec_RLR alpha beta d =
     (let sa = sin alpha; sb = sin beta; ca = cos alpha; cb = cos beta;
          c_ab = cos (alpha - beta);
          val = (6 - d\<^sup>2 + 2 * c_ab + 2 * d * (sa - sb)) / 8
      in if \<bar>val\<bar> \<le> 1 then
           (let p = canon (2 * pi - arccos val);
                t = canon (alpha - atan2 (ca - cb) (d - sa + sb) + canon (p / 2));
                q = canon (alpha - beta - t + canon p)
            in Some (t, p, q))
         else None)"

definition spec_LRL :: "real \<Rightarrow> real \<Rightarrow> real \<Rightarrow> (real \<times> real \<times> real) option" where
  "spec_LRL alpha beta d =
     (let sa = sin alpha; sb = sin beta; ca = cos alpha; cb = cos beta;
          c_ab = cos (alpha - beta);
          val = (6 - d\<^sup>2 + 2 * c_ab + 2 * d * (sb - sa)) / 8
      in if \<bar>val\<bar> \<le> 1 then
           (let p = canon (2 * pi - arccos val);
                t = canon (- alpha - atan2 (ca - cb) (d + sa - sb) + p / 2);
                q = canon (canon beta - alpha - t + canon p)
            in Some (t, p, q))
         else None)"

text \<open>
  What \<^verbatim>\<open>general_planner\<close> returns for a family code whose evaluator gives \<open>r\<close>: nothing
  when \<open>r\<close> is infeasible, else the three measures, the letters of the code and the cost
  \<open>t + p + q\<close>.
\<close>

definition spec_result :: "string \<Rightarrow> (real \<times> real \<times> real) option \<Rightarrow> solution option" where
  "spec_result family r = map_option (\<lambda>(t, p, q). ([t, p, q], family, t + p + q)) r"

text \<open>
  Section 4.4: a left-turn arc and a right-turn arc of a normalized measure \<open>m\<close> (an angle in
  radians, drawn as a bend of that angle in degrees, positive to the left), and a
  straight of the measure times the radius.
\<close>

definition spec_shape :: "char \<Rightarrow> real \<Rightarrow> real \<Rightarrow> shape" where
  "spec_shape letter m r =
     (if letter = CHR ''L'' then Bend (180 * m / pi)
      else if letter = CHR ''R'' then Bend (- (180 * m / pi))
      else Straight (m * r))"

section \<open>The planner without the reflection step\<close>

text \<open>
  \<^verbatim>\<open>general_planner\<close> with lines 108-110 removed, and the loop and the planner built on it.
  Nothing else differs from the definitions above.
\<close>

definition planner_result_noreflect :: "string \<Rightarrow> real \<Rightarrow> real \<Rightarrow> real \<Rightarrow> solution" where
  "planner_result_noreflect mode t p q =
     (let path = [t, p, q];
          cost = sum_list (map abs path)
      in (path, mode, cost))"

definition general_planner_noreflect ::
  "string \<Rightarrow> real \<Rightarrow> real \<Rightarrow> real \<Rightarrow> error + solution option" where
  "general_planner_noreflect planner alpha beta d =
     (let sa = sin alpha;
          sb = sin beta;
          ca = cos alpha;
          cb = cos beta;
          c_ab = cos (alpha - beta);
          mode = planner;
          planner_uc = upper planner
      in
      if planner_uc = ''LSL'' then
        (let tmp0 = d + sa - sb;
             p_squared = 2 + (d * d) - (2 * c_ab) + (2 * d * (sa - sb))
         in if p_squared < 0 then Inr None
            else
              (let tmp1 = atan2 (cb - ca) tmp0;
                   t = mod_to_pi (- alpha + tmp1);
                   p = sqrt p_squared;
                   q = mod_to_pi (beta - tmp1)
               in Inr (Some (planner_result_noreflect mode t p q))))
      else if planner_uc = ''RSR'' then
        (let tmp0 = d - sa + sb;
             p_squared = 2 + (d * d) - (2 * c_ab) + (2 * d * (sb - sa))
         in if p_squared < 0 then Inr None
            else
              (let tmp1 = atan2 (ca - cb) tmp0;
                   t = mod_to_pi (alpha - tmp1);
                   p = sqrt p_squared;
                   q = mod_to_pi (- beta + tmp1)
               in Inr (Some (planner_result_noreflect mode t p q))))
      else if planner_uc = ''LSR'' then
        (let p_squared = - 2 + (d * d) + (2 * c_ab) + (2 * d * (sa + sb))
         in if p_squared < 0 then Inr None
            else
              (let p = sqrt p_squared;
                   tmp2 = atan2 (- ca - cb) (d + sa + sb) - atan2 (- 2) p;
                   t = mod_to_pi (- alpha + tmp2);
                   q = mod_to_pi (- mod_to_pi beta + tmp2)
               in Inr (Some (planner_result_noreflect mode t p q))))
      else if planner_uc = ''RSL'' then
        (let p_squared = (d * d) - 2 + (2 * c_ab) - (2 * d * (sa + sb))
         in if p_squared < 0 then Inr None
            else
              (let p = sqrt p_squared;
                   tmp2 = atan2 (ca + cb) (d - sa - sb) - atan2 2 p;
                   t = mod_to_pi (alpha - tmp2);
                   q = mod_to_pi (beta - tmp2)
               in Inr (Some (planner_result_noreflect mode t p q))))
      else if planner_uc = ''RLR'' then
        (let tmp_rlr = (6 - d * d + 2 * c_ab + 2 * d * (sa - sb)) / 8
         in if \<bar>tmp_rlr\<bar> > 1 then Inr None
            else
              (let p = mod_to_pi (2 * pi - arccos tmp_rlr);
                   t = mod_to_pi (alpha - atan2 (ca - cb) (d - sa + sb) + mod_to_pi (p / 2));
                   q = mod_to_pi (alpha - beta - t + mod_to_pi p)
               in Inr (Some (planner_result_noreflect mode t p q))))
      else if planner_uc = ''LRL'' then
        (let tmp_lrl = (6 - d * d + 2 * c_ab + 2 * d * (- sa + sb)) / 8
         in if \<bar>tmp_lrl\<bar> > 1 then Inr None
            else
              (let p = mod_to_pi (2 * pi - arccos tmp_lrl);
                   t = mod_to_pi (- alpha - atan2 (ca - cb) (d + sa - sb) + p / 2);
                   q = mod_to_pi (mod_to_pi beta - alpha - t + mod_to_pi p)
               in Inr (Some (planner_result_noreflect mode t p q))))
      else Inl UnboundLocalError)"

fun best_loop_noreflect :: "string list \<Rightarrow> real \<Rightarrow> real \<Rightarrow> real \<Rightarrow> best \<Rightarrow> error + best" where
  "best_loop_noreflect [] alpha beta d b = Inr b"
| "best_loop_noreflect (planner # rest) alpha beta d b =
     (case general_planner_noreflect planner alpha beta d of
        Inl e \<Rightarrow> Inl e
      | Inr solution \<Rightarrow>
          (case loop_body b solution of
             Inl e \<Rightarrow> Inl e
           | Inr b' \<Rightarrow> best_loop_noreflect rest alpha beta d b'))"

definition dubins_path_noreflect :: "cross_section \<Rightarrow> config \<Rightarrow> config \<Rightarrow> error + segment list" where
  "dubins_path_noreflect xs start goal =
     (case normalize_config xs start goal of
        Inl e \<Rightarrow> Inl e
      | Inr (alpha, beta, d) \<Rightarrow>
          (case best_loop_noreflect planners alpha beta d best_init of
             Inl e \<Rightarrow> Inl e
           | Inr b \<Rightarrow> path_segments b (radius xs)))"

section \<open>Facts about the helpers and the family solver\<close>

lemma upper_planners:
  "upper ''LSL'' = ''LSL''" "upper ''RSR'' = ''RSR''" "upper ''LSR'' = ''LSR''"
  "upper ''RSL'' = ''RSL''" "upper ''RLR'' = ''RLR''" "upper ''LRL'' = ''LRL''"
  by (simp_all add: upper_def upper_char_def ascii_lower_def ascii_upper_def)

lemma not_islower_LSR:
  "\<not> islower (CHR ''L'')" "\<not> islower (CHR ''S'')" "\<not> islower (CHR ''R'')"
  by (simp_all add: islower_def ascii_lower_def)

lemma mod_to_pi_frac: "mod_to_pi a = 2 * pi * frac (a / (2 * pi))"
  by (simp add: mod_to_pi_def frac_def algebra_simps)

lemma mod_to_pi_nonneg: "0 \<le> mod_to_pi a"
  by (simp add: mod_to_pi_frac)

lemma mod_to_pi_less: "mod_to_pi a < 2 * pi"
proof -
  have "frac (a / (2 * pi)) < 1" by (rule frac_lt_1)
  then have "2 * pi * frac (a / (2 * pi)) < 2 * pi * 1"
    by (intro mult_strict_left_mono) simp_all
  then show ?thesis by (simp add: mod_to_pi_frac)
qed

lemma upper_length: "length (upper s) = length s"
  by (simp add: upper_def)

lemma length3: "length s = 3 \<Longrightarrow> \<exists>a b c. s = [a, b, c]"
  by (cases s; simp; cases "tl s"; simp; cases "tl (tl s)"; auto)

lemma planner_result_form:
  assumes "length planner = 3" "0 \<le> t" "t \<le> 2 * pi" "0 \<le> p" "0 \<le> q" "q \<le> 2 * pi"
  shows "\<exists>t' q'. planner_result planner mode t p q = ([t', p, q'], mode, t' + p + q')
           \<and> 0 \<le> t' \<and> 0 \<le> q'"
proof -
  from assms(1) obtain a b c where pl: "planner = [a, b, c]" using length3 by blast
  show ?thesis using assms(2-)
    by (cases "islower a"; cases "islower c")
       (simp_all add: pl planner_result_def reflect_def)
qed

lemma planner_result_upper:
  assumes "planner \<in> set planners"
  shows "planner_result planner mode t p q = ([t, p, q], mode, \<bar>t\<bar> + \<bar>p\<bar> + \<bar>q\<bar>)"
  using assms by (auto simp: planners_def planner_result_def reflect_def not_islower_LSR)

lemma upper_six_length:
  assumes "upper planner = ''LSL'' \<or> upper planner = ''RSR'' \<or> upper planner = ''LSR''
         \<or> upper planner = ''RSL'' \<or> upper planner = ''RLR'' \<or> upper planner = ''LRL''"
  shows "length planner = 3"
proof -
  from assms have "length (upper planner) = 3" by auto
  then show ?thesis by (simp add: upper_length)
qed

lemma gp_some_form:
  assumes "general_planner planner alpha beta d = Inr (Some (path, mode, cost))"
  shows "\<exists>t p q. path = [t, p, q] \<and> 0 \<le> t \<and> 0 \<le> p \<and> 0 \<le> q \<and> cost = t + p + q
           \<and> mode = planner"
proof -
  have six: "upper planner = ''LSL'' \<or> upper planner = ''RSR'' \<or> upper planner = ''LSR''
         \<or> upper planner = ''RSL'' \<or> upper planner = ''RLR'' \<or> upper planner = ''LRL''"
    using assms by (auto simp: general_planner_def Let_def split: if_splits)
  then have len: "length planner = 3" by (rule upper_six_length)
  have R: "\<exists>t p q. path = [t, p, q] \<and> 0 \<le> t \<and> 0 \<le> p \<and> 0 \<le> q \<and> cost = t + p + q
           \<and> mode = planner"
    if p: "0 \<le> p0"
      and eq: "planner_result planner planner (mod_to_pi t0) p0 (mod_to_pi q0) = (path, mode, cost)"
    for t0 p0 q0
  proof -
    from planner_result_form[OF len mod_to_pi_nonneg _ p mod_to_pi_nonneg, of t0 q0 planner]
      mod_to_pi_less[of t0] mod_to_pi_less[of q0]
    obtain t' q' where "planner_result planner planner (mod_to_pi t0) p0 (mod_to_pi q0)
         = ([t', p0, q'], planner, t' + p0 + q')" "0 \<le> t'" "0 \<le> q'"
      by (meson less_imp_le)
    with eq p show ?thesis by auto
  qed
  show ?thesis using assms
    apply (simp add: general_planner_def Let_def split: if_splits)
    by (erule R[rotated], simp add: mod_to_pi_nonneg)+
qed

lemma lsl_p_squared_nonneg:
  fixes d alpha beta :: real
  shows "0 \<le> 2 + (d * d) - (2 * cos (alpha - beta)) + (2 * d * (sin alpha - sin beta))"
proof -
  have a: "sin alpha * sin alpha + cos alpha * cos alpha = 1"
    using sin_cos_squared_add[of alpha] by (simp add: power2_eq_square)
  have b: "sin beta * sin beta + cos beta * cos beta = 1"
    using sin_cos_squared_add[of beta] by (simp add: power2_eq_square)
  have "2 + (d * d) - (2 * cos (alpha - beta)) + (2 * d * (sin alpha - sin beta))
      = (d + sin alpha - sin beta) * (d + sin alpha - sin beta)
        + (cos beta - cos alpha) * (cos beta - cos alpha)"
    by (simp add: cos_diff algebra_simps) (use a b in linarith)
  also have "0 \<le> \<dots>" by simp
  finally show ?thesis by simp
qed

lemma gp_no_error:
  assumes "planner \<in> set planners"
  shows "\<exists>solution. general_planner planner alpha beta d = Inr solution"
  using assms by (auto simp: planners_def general_planner_def Let_def upper_planners)

text \<open>
  In exact arithmetic the \<^verbatim>\<open>p_squared\<close> of LSL is a sum of two squares, so LSL is feasible
  for every \<open>(alpha, beta, d)\<close> and the loop of \<^verbatim>\<open>dubins_path\<close> always finds a candidate.
  The six families are all without a candidate only through float overflow or NaN, which
  this embedding does not model.
\<close>

lemma gp_LSL_some:
  "\<exists>t p q. general_planner ''LSL'' alpha beta d = Inr (Some ([t, p, q], ''LSL'', t + p + q))
     \<and> 0 \<le> t \<and> 0 \<le> p \<and> 0 \<le> q"
proof -
  have pr: "planner_result ''LSL'' m t p q = ([t, p, q], m, \<bar>t\<bar> + \<bar>p\<bar> + \<bar>q\<bar>)" for m t p q
    by (rule planner_result_upper) (simp add: planners_def)
  show ?thesis
    using lsl_p_squared_nonneg[of d alpha beta]
    by (simp add: general_planner_def Let_def upper_planners pr mod_to_pi_nonneg)
qed

section \<open>Facts about the selector\<close>

lemma loop_body_None: "loop_body b None = Inr b"
  by (simp add: loop_body_def)

lemma loop_body_Some:
  "loop_body b (Some ([t, p, q], mode, cost)) =
     Inr (if cost_gt (bcost b) cost
          then \<lparr>bt = Some t, bp = Some p, bq = Some q, bmode = Some mode, bcost = Cost cost\<rparr>
          else b)"
  by (simp add: loop_body_def)

lemma cost_gt_trans: "cost_gt B c1 \<Longrightarrow> c2 < c1 \<Longrightarrow> cost_gt B c2"
  by (cases B) auto

lemma cost_gt_between: "cost_gt B c2 \<Longrightarrow> \<not> cost_gt B c1 \<Longrightarrow> c2 < c1"
  by (cases B) auto

lemma family_cost_None: "general_planner pl alpha beta d = Inr None \<Longrightarrow> family_cost pl alpha beta d = None"
  by (simp add: family_cost_def)

lemma family_cost_Some:
  "general_planner pl alpha beta d = Inr (Some (path, mode, cost)) \<Longrightarrow> family_cost pl alpha beta d = Some cost"
  by (simp add: family_cost_def)

lemma best_loop_select:
  assumes "best_loop pls alpha beta d b = Inr b'"
  shows "(b' = b \<and> (\<forall>pl\<in>set pls. \<forall>cost. family_cost pl alpha beta d = Some cost
                      \<longrightarrow> \<not> cost_gt (bcost b) cost))
       \<or> (\<exists>pre pl post t p q.
            pls = pre @ pl # post
          \<and> general_planner pl alpha beta d = Inr (Some ([t, p, q], pl, t + p + q))
          \<and> b' = \<lparr>bt = Some t, bp = Some p, bq = Some q, bmode = Some pl,
                  bcost = Cost (t + p + q)\<rparr>
          \<and> cost_gt (bcost b) (t + p + q)
          \<and> (\<forall>pl'\<in>set pre. \<forall>cost. family_cost pl' alpha beta d = Some cost \<longrightarrow> t + p + q < cost)
          \<and> (\<forall>pl'\<in>set post. \<forall>cost. family_cost pl' alpha beta d = Some cost \<longrightarrow> t + p + q \<le> cost))"
    (is "?D1 pls b \<or> ?D2 pls b")
  using assms
proof (induction pls arbitrary: b)
  case Nil
  then show ?case by simp
next
  case (Cons x rest)
  from Cons.prems obtain sol where sol: "general_planner x alpha beta d = Inr sol"
    by (auto split: sum.splits)
  show ?case
  proof (cases sol)
    case None
    with sol Cons.prems have run: "best_loop rest alpha beta d b = Inr b'"
      by (simp add: loop_body_None)
    have fc: "family_cost x alpha beta d = None"
      using sol None by (simp add: family_cost_None)
    from Cons.IH[OF run] show ?thesis
    proof
      assume "?D1 rest b"
      with fc have "?D1 (x # rest) b" by simp
      then show ?thesis ..
    next
      assume "?D2 rest b"
      then obtain pre pl post t p q where
        h: "rest = pre @ pl # post"
           "general_planner pl alpha beta d = Inr (Some ([t, p, q], pl, t + p + q))"
           "b' = \<lparr>bt = Some t, bp = Some p, bq = Some q, bmode = Some pl,
                  bcost = Cost (t + p + q)\<rparr>"
           "cost_gt (bcost b) (t + p + q)"
           "\<forall>pl'\<in>set pre. \<forall>cost. family_cost pl' alpha beta d = Some cost \<longrightarrow> t + p + q < cost"
           "\<forall>pl'\<in>set post. \<forall>cost. family_cost pl' alpha beta d = Some cost \<longrightarrow> t + p + q \<le> cost"
        by blast
      have "x # rest = (x # pre) @ pl # post" using h(1) by simp
      moreover have "\<forall>pl'\<in>set (x # pre). \<forall>cost. family_cost pl' alpha beta d = Some cost
                       \<longrightarrow> t + p + q < cost"
        using h(5) fc by simp
      ultimately have "?D2 (x # rest) b" using h(2,3,4,6) by blast
      then show ?thesis ..
    qed
  next
    case (Some s)
    obtain path mode cost where s: "s = (path, mode, cost)" by (cases s)
    from gp_some_form[OF sol[unfolded Some s]] obtain t p q where
      f: "path = [t, p, q]" "cost = t + p + q" "mode = x" by blast
    have gx: "general_planner x alpha beta d = Inr (Some ([t, p, q], x, t + p + q))"
      using sol Some s f by simp
    have fc: "family_cost x alpha beta d = Some (t + p + q)"
      using gx by (rule family_cost_Some)
    let ?new = "\<lparr>bt = Some t, bp = Some p, bq = Some q, bmode = Some x,
                  bcost = Cost (t + p + q)\<rparr>"
    show ?thesis
    proof (cases "cost_gt (bcost b) (t + p + q)")
      case True
      with gx Cons.prems have run: "best_loop rest alpha beta d ?new = Inr b'"
        by (simp add: loop_body_Some)
      from Cons.IH[OF run] show ?thesis
      proof
        assume "?D1 rest ?new"
        then have "b' = ?new"
          and "\<forall>pl'\<in>set rest. \<forall>cost. family_cost pl' alpha beta d = Some cost
                 \<longrightarrow> t + p + q \<le> cost"
          by auto
        moreover have "x # rest = [] @ x # rest" by simp
        ultimately have "?D2 (x # rest) b" using gx True by fastforce
        then show ?thesis ..
      next
        assume "?D2 rest ?new"
        then obtain pre pl post t' p' q' where
          h: "rest = pre @ pl # post"
             "general_planner pl alpha beta d = Inr (Some ([t', p', q'], pl, t' + p' + q'))"
             "b' = \<lparr>bt = Some t', bp = Some p', bq = Some q', bmode = Some pl,
                    bcost = Cost (t' + p' + q')\<rparr>"
             "cost_gt (bcost ?new) (t' + p' + q')"
             "\<forall>pl'\<in>set pre. \<forall>cost. family_cost pl' alpha beta d = Some cost \<longrightarrow> t' + p' + q' < cost"
             "\<forall>pl'\<in>set post. \<forall>cost. family_cost pl' alpha beta d = Some cost \<longrightarrow> t' + p' + q' \<le> cost"
          by blast
        have lt: "t' + p' + q' < t + p + q" using h(4) by simp
        have "x # rest = (x # pre) @ pl # post" using h(1) by simp
        moreover have "\<forall>pl'\<in>set (x # pre). \<forall>cost. family_cost pl' alpha beta d = Some cost
                         \<longrightarrow> t' + p' + q' < cost"
          using h(5) fc lt by simp
        moreover have "cost_gt (bcost b) (t' + p' + q')"
          using True lt by (rule cost_gt_trans)
        ultimately have "?D2 (x # rest) b" using h(2,3,6) by blast
        then show ?thesis ..
      qed
    next
      case False
      with gx Cons.prems have run: "best_loop rest alpha beta d b = Inr b'"
        by (simp add: loop_body_Some)
      from Cons.IH[OF run] show ?thesis
      proof
        assume "?D1 rest b"
        with fc False have "?D1 (x # rest) b" by simp
        then show ?thesis ..
      next
        assume "?D2 rest b"
        then obtain pre pl post t' p' q' where
          h: "rest = pre @ pl # post"
             "general_planner pl alpha beta d = Inr (Some ([t', p', q'], pl, t' + p' + q'))"
             "b' = \<lparr>bt = Some t', bp = Some p', bq = Some q', bmode = Some pl,
                    bcost = Cost (t' + p' + q')\<rparr>"
             "cost_gt (bcost b) (t' + p' + q')"
             "\<forall>pl'\<in>set pre. \<forall>cost. family_cost pl' alpha beta d = Some cost \<longrightarrow> t' + p' + q' < cost"
             "\<forall>pl'\<in>set post. \<forall>cost. family_cost pl' alpha beta d = Some cost \<longrightarrow> t' + p' + q' \<le> cost"
          by blast
        have lt: "t' + p' + q' < t + p + q" using h(4) False by (rule cost_gt_between)
        have "x # rest = (x # pre) @ pl # post" using h(1) by simp
        moreover have "\<forall>pl'\<in>set (x # pre). \<forall>cost. family_cost pl' alpha beta d = Some cost
                         \<longrightarrow> t' + p' + q' < cost"
          using h(5) fc lt by simp
        ultimately have "?D2 (x # rest) b" using h(2,3,4,6) by blast
        then show ?thesis ..
      qed
    qed
  qed
qed

lemma planners_letters:
  assumes "pl \<in> set planners"
  shows "\<exists>a b c. pl = [a, b, c] \<and> a \<in> {CHR ''L'', CHR ''R''} \<and> b \<in> {CHR ''L'', CHR ''S'', CHR ''R''}
           \<and> c \<in> {CHR ''L'', CHR ''R''}"
  using assms by (auto simp: planners_def)

lemma best_loop_no_error:
  assumes "set pls \<subseteq> set planners"
  shows "\<exists>b'. best_loop pls alpha beta d b = Inr b'"
  using assms
proof (induction pls arbitrary: b)
  case Nil
  then show ?case by simp
next
  case (Cons x rest)
  then have x: "x \<in> set planners" and rest: "set rest \<subseteq> set planners" by auto
  from gp_no_error[OF x] obtain sol where sol: "general_planner x alpha beta d = Inr sol"
    by blast
  have "\<exists>b1. loop_body b sol = Inr b1"
  proof (cases sol)
    case None
    then show ?thesis by (simp add: loop_body_None)
  next
    case (Some s)
    obtain path mode cost where s: "s = (path, mode, cost)" by (cases s)
    from gp_some_form[OF sol[unfolded Some s]] obtain t p q where "path = [t, p, q]" by blast
    then show ?thesis using Some s by (simp add: loop_body_Some)
  qed
  then obtain b1 where b1: "loop_body b sol = Inr b1" by blast
  from Cons.IH[OF rest, of b1] obtain b' where "best_loop rest alpha beta d b1 = Inr b'"
    by blast
  then show ?case using sol b1 by simp
qed

lemma best_loop_planners:
  "\<exists>pre pl post t p q.
       planners = pre @ pl # post
     \<and> general_planner pl alpha beta d = Inr (Some ([t, p, q], pl, t + p + q))
     \<and> best_loop planners alpha beta d best_init =
         Inr \<lparr>bt = Some t, bp = Some p, bq = Some q, bmode = Some pl, bcost = Cost (t + p + q)\<rparr>
     \<and> (\<forall>pl'\<in>set pre. \<forall>cost. family_cost pl' alpha beta d = Some cost \<longrightarrow> t + p + q < cost)
     \<and> (\<forall>pl'\<in>set post. \<forall>cost. family_cost pl' alpha beta d = Some cost \<longrightarrow> t + p + q \<le> cost)"
proof -
  from best_loop_no_error[of planners alpha beta d best_init]
  obtain b' where run: "best_loop planners alpha beta d best_init = Inr b'" by blast
  from gp_LSL_some[of alpha beta d] obtain c where "family_cost ''LSL'' alpha beta d = Some c"
    using family_cost_Some by blast
  moreover have "''LSL'' \<in> set planners" by (simp add: planners_def)
  moreover have "cost_gt (bcost best_init) c" by (simp add: best_init_def)
  ultimately have "\<not> (\<forall>pl\<in>set planners. \<forall>cost. family_cost pl alpha beta d = Some cost
                      \<longrightarrow> \<not> cost_gt (bcost best_init) cost)"
    by blast
  with best_loop_select[OF run] run show ?thesis by blast
qed

lemma normalize_zero: "radius xs = 0 \<Longrightarrow> normalize_config xs start goal = Inl ZeroDivisionError"
  by (simp add: normalize_config_def Let_def split: prod.splits)

lemma normalize_nonzero:
  "radius xs \<noteq> 0 \<Longrightarrow> \<exists>alpha beta d. normalize_config xs start goal = Inr (alpha, beta, d)"
  by (simp add: normalize_config_def Let_def split: prod.splits)

lemma path_segments_best:
  assumes "pl \<in> set planners"
  shows "path_segments \<lparr>bt = Some t, bp = Some p, bq = Some q, bmode = Some pl, bcost = k\<rparr> c
           = Inr [(pl ! 0, t * c, c), (pl ! 1, p * c, c), (pl ! 2, q * c, c)]"
proof -
  from planners_letters[OF assms] obtain x y z where "pl = [x, y, z]" by blast
  then show ?thesis by (simp add: path_segments_def numeral_3_eq_3)
qed

lemma dubins_path_zero: "radius xs = 0 \<Longrightarrow> dubins_path xs start goal = Inl ZeroDivisionError"
  by (simp add: dubins_path_def normalize_zero)

lemma dubins_path_form:
  assumes "radius xs \<noteq> 0"
  shows "\<exists>alpha beta d pl t p q.
           normalize_config xs start goal = Inr (alpha, beta, d)
         \<and> pl \<in> set planners
         \<and> best_loop planners alpha beta d best_init =
             Inr \<lparr>bt = Some t, bp = Some p, bq = Some q, bmode = Some pl, bcost = Cost (t + p + q)\<rparr>
         \<and> dubins_path xs start goal =
             Inr [(pl ! 0, t * radius xs, radius xs), (pl ! 1, p * radius xs, radius xs),
                  (pl ! 2, q * radius xs, radius xs)]"
proof -
  from normalize_nonzero[OF assms] obtain alpha beta d where
    n: "normalize_config xs start goal = Inr (alpha, beta, d)" by blast
  from best_loop_planners[of alpha beta d] obtain pre pl post t p q where
    pl: "planners = pre @ pl # post"
    and run: "best_loop planners alpha beta d best_init =
         Inr \<lparr>bt = Some t, bp = Some p, bq = Some q, bmode = Some pl, bcost = Cost (t + p + q)\<rparr>"
    by blast
  from pl have mem: "pl \<in> set planners" by (metis in_set_conv_decomp)
  have "dubins_path xs start goal =
             Inr [(pl ! 0, t * radius xs, radius xs), (pl ! 1, p * radius xs, radius xs),
                  (pl ! 2, q * radius xs, radius xs)]"
    by (simp add: dubins_path_def n run path_segments_best[OF mem])
  with n mem run show ?thesis by blast
qed

section \<open>The planner at concrete inputs\<close>

lemma planner_result_six:
  "planner_result ''LSL'' m t p q = ([t, p, q], m, \<bar>t\<bar> + \<bar>p\<bar> + \<bar>q\<bar>)"
  "planner_result ''RSR'' m t p q = ([t, p, q], m, \<bar>t\<bar> + \<bar>p\<bar> + \<bar>q\<bar>)"
  "planner_result ''LSR'' m t p q = ([t, p, q], m, \<bar>t\<bar> + \<bar>p\<bar> + \<bar>q\<bar>)"
  "planner_result ''RSL'' m t p q = ([t, p, q], m, \<bar>t\<bar> + \<bar>p\<bar> + \<bar>q\<bar>)"
  "planner_result ''RLR'' m t p q = ([t, p, q], m, \<bar>t\<bar> + \<bar>p\<bar> + \<bar>q\<bar>)"
  "planner_result ''LRL'' m t p q = ([t, p, q], m, \<bar>t\<bar> + \<bar>p\<bar> + \<bar>q\<bar>)"
  by (simp_all add: planner_result_upper planners_def)

lemma mod_to_pi_0: "mod_to_pi 0 = 0"
  by (simp add: mod_to_pi_def)

lemma atan2_0_pos: "0 < x \<Longrightarrow> atan2 0 x = 0"
  by (simp add: atan2_def)

lemma sqrt_100: "sqrt 100 = 10"
  using real_sqrt_abs[of 10] by simp

lemma gp_eval_10:
  "general_planner ''LSL'' 0 0 10 = Inr (Some ([0, 10, 0], ''LSL'', 10))"
  "general_planner ''RSR'' 0 0 10 = Inr (Some ([0, 10, 0], ''RSR'', 10))"
  "general_planner ''LSR'' 0 0 10 = Inr (Some ([0, 10, 0], ''LSR'', 10))"
  "general_planner ''RSL'' 0 0 10 = Inr (Some ([0, 10, 0], ''RSL'', 10))"
  "general_planner ''RLR'' 0 0 10 = Inr None"
  "general_planner ''LRL'' 0 0 10 = Inr None"
  by (simp_all add: general_planner_def Let_def upper_planners planner_result_six
        mod_to_pi_0 atan2_0_pos sqrt_100)

lemma best_loop_eval_10:
  "best_loop planners 0 0 10 best_init =
     Inr \<lparr>bt = Some 0, bp = Some 10, bq = Some 0, bmode = Some ''LSL'', bcost = Cost 10\<rparr>"
  by (simp add: planners_def gp_eval_10 loop_body_Some loop_body_None best_init_def)

lemma normalize_eval_10:
  "normalize_config \<lparr>radius = 1\<rparr> (0, 0, 0) (10, 0, 0) = Inr (0, 0, 10)"
  by (simp add: normalize_config_def Let_def radians_def mod_to_pi_0 atan2_0_pos)

lemma dubins_path_eval_10:
  "dubins_path \<lparr>radius = 1\<rparr> (0, 0, 0) (10, 0, 0) =
     Inr [(CHR ''L'', 0, 1), (CHR ''S'', 10, 1), (CHR ''L'', 0, 1)]"
  by (simp add: dubins_path_def normalize_eval_10 best_loop_eval_10 path_segments_def
        numeral_3_eq_3)

lemma gp_eval_lower:
  "general_planner ''lSl'' 0 0 10 = Inr (Some ([2 * pi, 10, 2 * pi], ''lSl'', 2 * pi + 10 + 2 * pi))"
  by (simp add: general_planner_def Let_def upper_def upper_char_def ascii_lower_def
        ascii_upper_def planner_result_def reflect_def islower_def
        mod_to_pi_0 atan2_0_pos sqrt_100)

lemma mod_to_pi_id: "0 \<le> x \<Longrightarrow> x < 2 * pi \<Longrightarrow> mod_to_pi x = x"
proof -
  assume a: "0 \<le> x" "x < 2 * pi"
  have "\<lfloor>x / 2 / pi\<rfloor> = 0"
    using a by (simp add: floor_eq_iff divide_simps)
  then show ?thesis by (simp add: mod_to_pi_def)
qed

lemma mod_to_pi_neg: "- (2 * pi) \<le> x \<Longrightarrow> x < 0 \<Longrightarrow> mod_to_pi x = x + 2 * pi"
proof -
  assume a: "- (2 * pi) \<le> x" "x < 0"
  have "\<lfloor>x / 2 / pi\<rfloor> = - 1"
    using a by (simp add: floor_eq_iff divide_simps)
  then show ?thesis by (simp add: mod_to_pi_def)
qed

lemma arctan_fifth: "0 < arctan (1 / 5)" "arctan (1 / 5) < pi / 2"
  using arctan_ubound[of "1 / 5"] by simp_all

lemma atan2_neg10:
  "atan2 0 (- 10) = pi"
  "atan2 (- 2) (- 10) = arctan (1 / 5) - pi"
  "atan2 (- 2) 10 = - arctan (1 / 5)"
  "atan2 2 (- 10) = pi - arctan (1 / 5)"
  "atan2 2 10 = arctan (1 / 5)"
  by (simp_all add: atan2_def arctan_minus)

lemma gp_eval_neg10:
  "general_planner ''LSL'' 0 0 (- 10) = Inr (Some ([pi, 10, pi], ''LSL'', pi + 10 + pi))"
  "general_planner ''RSR'' 0 0 (- 10) = Inr (Some ([pi, 10, pi], ''RSR'', pi + 10 + pi))"
  "general_planner ''LSR'' 0 0 (- 10) =
     Inr (Some ([pi + 2 * arctan (1 / 5), 10, pi + 2 * arctan (1 / 5)], ''LSR'',
                pi + 2 * arctan (1 / 5) + 10 + (pi + 2 * arctan (1 / 5))))"
  "general_planner ''RSL'' 0 0 (- 10) =
     Inr (Some ([pi + 2 * arctan (1 / 5), 10, pi + 2 * arctan (1 / 5)], ''RSL'',
                pi + 2 * arctan (1 / 5) + 10 + (pi + 2 * arctan (1 / 5))))"
  "general_planner ''RLR'' 0 0 (- 10) = Inr None"
  "general_planner ''LRL'' 0 0 (- 10) = Inr None"
proof -
  have a: "mod_to_pi pi = pi" by (rule mod_to_pi_id) simp_all
  have b: "mod_to_pi (- pi) = pi" using mod_to_pi_neg[of "- pi"] by simp
  have c: "mod_to_pi (2 * arctan (1 / 5) - pi) = pi + 2 * arctan (1 / 5)"
    using mod_to_pi_neg[of "2 * arctan (1 / 5) - pi"] arctan_fifth by simp
  have c': "mod_to_pi (arctan (1 / 5) - pi + arctan (1 / 5)) = pi + 2 * arctan (1 / 5)"
    using c by (simp add: algebra_simps)
  have nn: "\<bar>pi + 2 * arctan (1 / 5)\<bar> = pi + 2 * arctan (1 / 5)"
    using arctan_fifth by simp
  show "general_planner ''LSL'' 0 0 (- 10) = Inr (Some ([pi, 10, pi], ''LSL'', pi + 10 + pi))"
    by (simp add: general_planner_def Let_def upper_planners planner_result_six
        atan2_neg10 sqrt_100 a b)
  show "general_planner ''RSR'' 0 0 (- 10) = Inr (Some ([pi, 10, pi], ''RSR'', pi + 10 + pi))"
    by (simp add: general_planner_def Let_def upper_planners planner_result_six
        atan2_neg10 sqrt_100 a b)
  show "general_planner ''LSR'' 0 0 (- 10) =
     Inr (Some ([pi + 2 * arctan (1 / 5), 10, pi + 2 * arctan (1 / 5)], ''LSR'',
                pi + 2 * arctan (1 / 5) + 10 + (pi + 2 * arctan (1 / 5))))"
    using nn by (simp add: general_planner_def Let_def upper_planners planner_result_six
        atan2_neg10 sqrt_100 mod_to_pi_0 c c')
  show "general_planner ''RSL'' 0 0 (- 10) =
     Inr (Some ([pi + 2 * arctan (1 / 5), 10, pi + 2 * arctan (1 / 5)], ''RSL'',
                pi + 2 * arctan (1 / 5) + 10 + (pi + 2 * arctan (1 / 5))))"
    using nn by (simp add: general_planner_def Let_def upper_planners planner_result_six
        atan2_neg10 sqrt_100 mod_to_pi_0 c c')
  show "general_planner ''RLR'' 0 0 (- 10) = Inr None"
    by (simp add: general_planner_def Let_def upper_planners)
  show "general_planner ''LRL'' 0 0 (- 10) = Inr None"
    by (simp add: general_planner_def Let_def upper_planners)
qed

lemma best_loop_eval_neg10:
  "best_loop planners 0 0 (- 10) best_init =
     Inr \<lparr>bt = Some pi, bp = Some 10, bq = Some pi, bmode = Some ''LSL'',
          bcost = Cost (pi + 10 + pi)\<rparr>"
  using arctan_fifth
  by (simp add: planners_def gp_eval_neg10 loop_body_Some loop_body_None best_init_def)

lemma normalize_eval_neg10:
  "normalize_config \<lparr>radius = - 1\<rparr> (0, 0, 0) (10, 0, 0) = Inr (0, 0, - 10)"
  by (simp add: normalize_config_def Let_def radians_def mod_to_pi_0 atan2_0_pos)

lemma dubins_path_eval_neg10:
  "dubins_path \<lparr>radius = - 1\<rparr> (0, 0, 0) (10, 0, 0) =
     Inr [(CHR ''L'', - pi, - 1), (CHR ''S'', - 10, - 1), (CHR ''L'', - pi, - 1)]"
  by (simp add: dubins_path_def normalize_eval_neg10 best_loop_eval_neg10 path_segments_def
        numeral_3_eq_3)

section \<open>The source against the specification's formulas\<close>

lemma canon_mod_to_pi: "mod_to_pi a = canon a"
  by (simp add: mod_to_pi_def canon_def)

lemma gp_spec_LSL: "general_planner ''LSL'' alpha beta d = Inr (spec_result ''LSL'' (spec_LSL alpha beta d))"
  by (simp add: general_planner_def spec_LSL_def spec_result_def Let_def upper_planners
      planner_result_six mod_to_pi_nonneg canon_mod_to_pi[symmetric] power2_eq_square not_less)

lemma gp_spec_RSR: "general_planner ''RSR'' alpha beta d = Inr (spec_result ''RSR'' (spec_RSR alpha beta d))"
  by (simp add: general_planner_def spec_RSR_def spec_result_def Let_def upper_planners
      planner_result_six mod_to_pi_nonneg canon_mod_to_pi[symmetric] power2_eq_square not_less)

lemma gp_spec_LSR: "general_planner ''LSR'' alpha beta d = Inr (spec_result ''LSR'' (spec_LSR alpha beta d))"
  by (simp add: general_planner_def spec_LSR_def spec_result_def Let_def upper_planners
      planner_result_six mod_to_pi_nonneg canon_mod_to_pi[symmetric] power2_eq_square not_less)

lemma gp_spec_RSL: "general_planner ''RSL'' alpha beta d = Inr (spec_result ''RSL'' (spec_RSL alpha beta d))"
  by (simp add: general_planner_def spec_RSL_def spec_result_def Let_def upper_planners
      planner_result_six mod_to_pi_nonneg canon_mod_to_pi[symmetric] power2_eq_square not_less)

lemma gp_spec_RLR: "general_planner ''RLR'' alpha beta d = Inr (spec_result ''RLR'' (spec_RLR alpha beta d))"
  by (simp add: general_planner_def spec_RLR_def spec_result_def Let_def upper_planners
      planner_result_six mod_to_pi_nonneg canon_mod_to_pi[symmetric] power2_eq_square not_less)

lemma gp_spec_LRL: "general_planner ''LRL'' alpha beta d = Inr (spec_result ''LRL'' (spec_LRL alpha beta d))"
  by (simp add: general_planner_def spec_LRL_def spec_result_def Let_def upper_planners
      planner_result_six mod_to_pi_nonneg canon_mod_to_pi[symmetric] power2_eq_square not_less)

lemma canon_range: "0 \<le> canon a \<and> canon a < 2 * pi"
  using mod_to_pi_nonneg[of a] mod_to_pi_less[of a] by (simp add: canon_mod_to_pi)

lemma normalize_spec:
  assumes "radius xs \<noteq> 0"
  shows "normalize_config xs start goal = Inr (spec_normalize (radius xs) start goal)"
  using assms
  by (simp add: normalize_config_def spec_normalize_def Let_def radians_def canon_mod_to_pi
      split: prod.splits)




section \<open>Facts about the entry point and the planner without reflection\<close>

lemma pymod_range: "0 < y \<Longrightarrow> 0 \<le> pymod x y \<and> pymod x y < y"
proof -
  assume y: "0 < y"
  have "pymod x y = y * frac (x / y)" using y by (simp add: pymod_def frac_def algebra_simps)
  moreover have "0 \<le> frac (x / y)" "frac (x / y) < 1" by (simp_all add: frac_lt_1)
  ultimately show ?thesis using y by simp
qed

lemma gp_noreflect_six:
  "general_planner_noreflect ''LSL'' alpha beta d = general_planner ''LSL'' alpha beta d"
  "general_planner_noreflect ''RSR'' alpha beta d = general_planner ''RSR'' alpha beta d"
  "general_planner_noreflect ''LSR'' alpha beta d = general_planner ''LSR'' alpha beta d"
  "general_planner_noreflect ''RSL'' alpha beta d = general_planner ''RSL'' alpha beta d"
  "general_planner_noreflect ''RLR'' alpha beta d = general_planner ''RLR'' alpha beta d"
  "general_planner_noreflect ''LRL'' alpha beta d = general_planner ''LRL'' alpha beta d"
  by (simp_all add: general_planner_noreflect_def general_planner_def Let_def upper_planners
      planner_result_six planner_result_noreflect_def)

lemma gp_noreflect_planners:
  "pl \<in> set planners \<Longrightarrow> general_planner_noreflect pl alpha beta d = general_planner pl alpha beta d"
  by (auto simp: planners_def gp_noreflect_six)

lemma best_loop_noreflect_eq:
  "set pls \<subseteq> set planners \<Longrightarrow> best_loop_noreflect pls alpha beta d b = best_loop pls alpha beta d b"
proof (induction pls arbitrary: b)
  case Nil
  then show ?case by simp
next
  case (Cons x rest)
  then have x: "x \<in> set planners" and rest: "set rest \<subseteq> set planners" by auto
  show ?case
    by (simp add: gp_noreflect_planners[OF x] Cons.IH[OF rest] split: sum.splits)
qed

lemma best_loop_noreflect_planners:
  "best_loop_noreflect planners alpha beta d b = best_loop planners alpha beta d b"
  by (rule best_loop_noreflect_eq) simp

lemma gds_solution_three:
  assumes "r \<noteq> 0"
    and "a \<in> {CHR ''L'', CHR ''S'', CHR ''R''}"
    and "b \<in> {CHR ''L'', CHR ''S'', CHR ''R''}"
    and "c \<in> {CHR ''L'', CHR ''S'', CHR ''R''}"
  shows "gds_solution xs port1 port2 [(a, t * r, r), (b, p * r, r), (c, q * r, r)]
           = Inr [spec_shape a t r, spec_shape b p r, spec_shape c q r]"
  using assms by (auto simp: spec_shape_def)

section \<open>The claims\<close>

subsection \<open>Radius validation\<close>

text \<open>
  C1, as stated, fails. The planner does not validate the radius and no line raises
  \<open>InvalidRadiusError\<close>. With radius \<open>0\<close> the call from \<open>(0, 0, 0\<degree>)\<close> to \<open>(10, 0, 0\<degree>)\<close>
  fails with \<open>ZeroDivisionError\<close>, at the division \<^verbatim>\<open>D / c\<close>; with radius \<open>-1\<close> the same call
  does not fail: it returns the family LSL with the lengths \<open>-\<pi>\<close>, \<open>-10\<close>, \<open>-\<pi>\<close> and the
  radius \<open>-1\<close> on every segment.
\<close>

theorem radius_zero_negative_counterexample:
  "dubins_path \<lparr>radius = 0\<rparr> (0, 0, 0) (10, 0, 0) = Inl ZeroDivisionError
   \<and> dubins_path \<lparr>radius = - 1\<rparr> (0, 0, 0) (10, 0, 0) =
       Inr [(CHR ''L'', - pi, - 1), (CHR ''S'', - 10, - 1), (CHR ''L'', - pi, - 1)]"
  by (simp add: dubins_path_zero dubins_path_eval_neg10)

text \<open>
  C1, amended: the planner never fails with \<open>InvalidRadiusError\<close>. With radius \<open>0\<close> it fails
  with \<open>ZeroDivisionError\<close>; with every other radius, a negative one too, it returns, in
  exact arithmetic, three segments, each carrying that radius.
\<close>

theorem radius_not_validated:
  "(radius xs = 0 \<longrightarrow> dubins_path xs start goal = Inl ZeroDivisionError)
   \<and> (radius xs \<noteq> 0 \<longrightarrow>
        (\<exists>path. dubins_path xs start goal = Inr path \<and> length path = 3
               \<and> map (\<lambda>seg. snd (snd seg)) path = replicate 3 (radius xs)))
   \<and> dubins_path xs start goal \<noteq> Inl InvalidRadiusError"
proof (cases "radius xs = 0")
  case True
  then show ?thesis by (simp add: dubins_path_zero)
next
  case False
  from dubins_path_form[OF False, of start goal] obtain pl t p q where
    "dubins_path xs start goal =
       Inr [(pl ! 0, t * radius xs, radius xs), (pl ! 1, p * radius xs, radius xs),
            (pl ! 2, q * radius xs, radius xs)]"
    by blast
  with False show ?thesis by (simp add: numeral_3_eq_3)
qed

theorem radius_not_validated_witness:
  "dubins_path \<lparr>radius = 0\<rparr> (0, 0, 0) (10, 0, 0) = Inl ZeroDivisionError
   \<and> (\<exists>path. dubins_path \<lparr>radius = - 1\<rparr> (0, 0, 0) (10, 0, 0) = Inr path \<and> length path = 3
         \<and> map (\<lambda>seg. snd (snd seg)) path = replicate 3 (- 1))"
  using radius_not_validated[of "\<lparr>radius = 0\<rparr>" "(0, 0, 0)" "(10, 0, 0)"]
        radius_not_validated[of "\<lparr>radius = - 1\<rparr>" "(0, 0, 0)" "(10, 0, 0)"]
  by simp

subsection \<open>Segment measures\<close>

text \<open>
  C6: whenever \<^verbatim>\<open>general_planner\<close> returns a result, for any family code in any letter
  case, so after the reflection of lines 108-110, the path has three measures, each
  non-negative, and the reported cost, the sum of the absolute values, is \<open>t + p + q\<close>.
\<close>

theorem family_measures_nonneg:
  assumes "general_planner planner alpha beta d = Inr (Some (path, mode, cost))"
  shows "\<exists>t p q. path = [t, p, q] \<and> 0 \<le> t \<and> 0 \<le> p \<and> 0 \<le> q \<and> cost = t + p + q
           \<and> sum_list (map abs path) = t + p + q"
proof -
  from gp_some_form[OF assms] obtain t p q where
    "path = [t, p, q]" "0 \<le> t" "0 \<le> p" "0 \<le> q" "cost = t + p + q" by blast
  then show ?thesis by simp
qed

theorem family_measures_nonneg_witness:
  "general_planner ''lSl'' 0 0 10 = Inr (Some ([2 * pi, 10, 2 * pi], ''lSl'', 2 * pi + 10 + 2 * pi))
   \<and> (\<exists>t p q. [2 * pi, 10, 2 * pi] = [t, p, q] \<and> 0 \<le> t \<and> 0 \<le> p \<and> 0 \<le> q
         \<and> 2 * pi + 10 + 2 * pi = t + p + q
         \<and> sum_list (map abs [2 * pi, 10, 2 * pi]) = t + p + q)"
  using family_measures_nonneg[OF gp_eval_lower] gp_eval_lower by simp

subsection \<open>Normalization\<close>

text \<open>
  C5: for two configurations with headings in degrees and a radius other than \<open>0\<close>, the
  normalization of lines 142-167 returns the \<open>(alpha, beta, d)\<close> of the specification's
  formulas; \<^verbatim>\<open>mod_to_pi\<close> is the specification's \<open>canon\<close>, and its value lies in \<open>[0, 2\<pi>)\<close>
  for every angle.
\<close>

theorem normalization_formulas:
  assumes "radius xs \<noteq> 0"
  shows "normalize_config xs start goal = Inr (spec_normalize (radius xs) start goal)
       \<and> mod_to_pi a = canon a \<and> 0 \<le> canon a \<and> canon a < 2 * pi"
  using normalize_spec[OF assms] canon_range[of a] by (simp add: canon_mod_to_pi)

theorem normalization_formulas_witness:
  "radius \<lparr>radius = 1\<rparr> \<noteq> 0
   \<and> normalize_config \<lparr>radius = 1\<rparr> (0, 0, 0) (10, 0, 0) = Inr (0, 0, 10)
   \<and> spec_normalize 1 (0, 0, 0) (10, 0, 0) = (0, 0, 10)
   \<and> mod_to_pi (- pi) = pi \<and> canon (- pi) = pi"
proof -
  have h: "radius \<lparr>radius = 1\<rparr> \<noteq> 0" by simp
  have m: "mod_to_pi (- pi) = pi" using mod_to_pi_neg[of "- pi"] by simp
  from normalization_formulas[OF h, of "(0, 0, 0)" "(10, 0, 0)" "- pi"] m
  show ?thesis by (simp add: normalize_eval_10)
qed



subsection \<open>The entry point\<close>

text \<open>
  C9: \<^verbatim>\<open>route_dubin\<close> plans from the first port's centre divided by 1000, with its
  orientation unchanged, to the second port's centre divided by 1000, with the heading
  \<open>(orientation + 180) mod 360\<close>: a value in \<open>[0, 360)\<close> that differs from
  \<open>orientation + 180\<close> by a multiple of 360.
\<close>

theorem route_dubin_reverses_end_heading:
  "route_dubin xs port1 port2 =
     (case dubins_path xs
             (fst (center port1) / 1000, snd (center port1) / 1000, orientation port1)
             (fst (center port2) / 1000, snd (center port2) / 1000,
              pymod (orientation port2 + 180) 360) of
        Inl e \<Rightarrow> Inl e
      | Inr path \<Rightarrow> gds_solution xs port1 port2 path)
   \<and> 0 \<le> pymod (orientation port2 + 180) 360
   \<and> pymod (orientation port2 + 180) 360 < 360
   \<and> (\<exists>k::int. pymod (orientation port2 + 180) 360 = orientation port2 + 180 - 360 * of_int k)"
proof -
  have "\<exists>k::int. pymod (orientation port2 + 180) 360 = orientation port2 + 180 - 360 * of_int k"
    unfolding pymod_def by blast
  moreover have "0 \<le> pymod (orientation port2 + 180) 360 \<and> pymod (orientation port2 + 180) 360 < 360"
    by (rule pymod_range) simp
  moreover have "route_dubin xs port1 port2 =
     (case dubins_path xs
             (fst (center port1) / 1000, snd (center port1) / 1000, orientation port1)
             (fst (center port2) / 1000, snd (center port2) / 1000,
              pymod (orientation port2 + 180) 360) of
        Inl e \<Rightarrow> Inl e
      | Inr path \<Rightarrow> gds_solution xs port1 port2 path)"
    by (simp add: route_dubin_def Let_def split: prod.splits)
  ultimately show ?thesis by blast
qed

subsection \<open>The reflection step\<close>

text \<open>
  C10: \<^verbatim>\<open>dubins_path\<close> returns what the planner without the reflection step returns, for
  every input: the loop passes only the six upper-case family codes, and on each of them
  \<^verbatim>\<open>general_planner\<close> with and without the reflection step agree.
\<close>

theorem reflection_never_taken:
  "dubins_path_noreflect xs start goal = dubins_path xs start goal
   \<and> best_loop_noreflect planners alpha beta d best_init = best_loop planners alpha beta d best_init
   \<and> planners = [''LSL'', ''RSR'', ''LSR'', ''RSL'', ''RLR'', ''LRL'']
   \<and> general_planner_noreflect ''LSL'' alpha beta d = general_planner ''LSL'' alpha beta d
   \<and> general_planner_noreflect ''RSR'' alpha beta d = general_planner ''RSR'' alpha beta d
   \<and> general_planner_noreflect ''LSR'' alpha beta d = general_planner ''LSR'' alpha beta d
   \<and> general_planner_noreflect ''RSL'' alpha beta d = general_planner ''RSL'' alpha beta d
   \<and> general_planner_noreflect ''RLR'' alpha beta d = general_planner ''RLR'' alpha beta d
   \<and> general_planner_noreflect ''LRL'' alpha beta d = general_planner ''LRL'' alpha beta d"
proof -
  have "dubins_path_noreflect xs start goal = dubins_path xs start goal"
    by (simp add: dubins_path_noreflect_def dubins_path_def best_loop_noreflect_planners
        split: sum.splits prod.splits)
  moreover have "planners = [''LSL'', ''RSR'', ''LSR'', ''RSL'', ''RLR'', ''LRL'']"
    by (simp add: planners_def)
  ultimately show ?thesis
    by (simp add: gp_noreflect_six best_loop_noreflect_planners)
qed

subsection \<open>The family evaluators\<close>

text \<open>
  C4: for every \<open>(alpha, beta, d)\<close> and each of the six family codes, \<^verbatim>\<open>general_planner\<close>
  returns nothing exactly when the feasibility test of the specification's table fails,
  and otherwise the \<open>(t, p, q)\<close> of that family's closed-form formula, with the letters
  of the code and the cost \<open>t + p + q\<close>. For LSL the test fails exactly when
  \<open>2 + d\<^sup>2 - 2 c_ab + 2 d (sa - sb) < 0\<close>.
\<close>

theorem family_evaluators_closed_form:
  "general_planner ''LSL'' alpha beta d = Inr (spec_result ''LSL'' (spec_LSL alpha beta d))
   \<and> general_planner ''RSR'' alpha beta d = Inr (spec_result ''RSR'' (spec_RSR alpha beta d))
   \<and> general_planner ''LSR'' alpha beta d = Inr (spec_result ''LSR'' (spec_LSR alpha beta d))
   \<and> general_planner ''RSL'' alpha beta d = Inr (spec_result ''RSL'' (spec_RSL alpha beta d))
   \<and> general_planner ''RLR'' alpha beta d = Inr (spec_result ''RLR'' (spec_RLR alpha beta d))
   \<and> general_planner ''LRL'' alpha beta d = Inr (spec_result ''LRL'' (spec_LRL alpha beta d))
   \<and> (general_planner ''LSL'' alpha beta d = Inr None)
       = (2 + d\<^sup>2 - 2 * cos (alpha - beta) + 2 * d * (sin alpha - sin beta) < 0)"
proof -
  have "(general_planner ''LSL'' alpha beta d = Inr None)
       = (2 + d\<^sup>2 - 2 * cos (alpha - beta) + 2 * d * (sin alpha - sin beta) < 0)"
    by (simp add: gp_spec_LSL spec_result_def spec_LSL_def Let_def not_le)
  then show ?thesis
    by (simp only: gp_spec_LSL gp_spec_RSR gp_spec_LSR gp_spec_RSL gp_spec_RLR gp_spec_LRL)
qed

subsection \<open>The three segments\<close>

text \<open>
  C7: a successful call of \<^verbatim>\<open>dubins_path\<close> returns exactly three segments, in the order of
  the letters of the family the selector chose; each carries its letter, the normalized
  measure times the radius, and the radius. \<^verbatim>\<open>gds_solution\<close> draws a letter L as a left
  bend, R as a right bend and S as a straight, and does not fail on such a path.
\<close>

theorem three_segments:
  assumes "dubins_path xs start goal = Inr path"
  shows "\<exists>alpha beta d family t p q.
           normalize_config xs start goal = Inr (alpha, beta, d)
         \<and> family \<in> set planners
         \<and> best_loop planners alpha beta d best_init =
             Inr \<lparr>bt = Some t, bp = Some p, bq = Some q, bmode = Some family,
                  bcost = Cost (t + p + q)\<rparr>
         \<and> path = [(family ! 0, t * radius xs, radius xs),
                    (family ! 1, p * radius xs, radius xs),
                    (family ! 2, q * radius xs, radius xs)]
         \<and> gds_solution xs port1 port2 path =
             Inr [spec_shape (family ! 0) t (radius xs),
                  spec_shape (family ! 1) p (radius xs),
                  spec_shape (family ! 2) q (radius xs)]"
proof -
  have nz: "radius xs \<noteq> 0"
    using assms dubins_path_zero[of xs start goal] by auto
  from dubins_path_form[OF nz, of start goal] obtain alpha beta d pl t p q where
    h: "normalize_config xs start goal = Inr (alpha, beta, d)"
       "pl \<in> set planners"
       "best_loop planners alpha beta d best_init =
             Inr \<lparr>bt = Some t, bp = Some p, bq = Some q, bmode = Some pl, bcost = Cost (t + p + q)\<rparr>"
       "dubins_path xs start goal =
             Inr [(pl ! 0, t * radius xs, radius xs), (pl ! 1, p * radius xs, radius xs),
                  (pl ! 2, q * radius xs, radius xs)]"
    by blast
  from h(4) assms have path: "path = [(pl ! 0, t * radius xs, radius xs),
      (pl ! 1, p * radius xs, radius xs), (pl ! 2, q * radius xs, radius xs)]" by simp
  from planners_letters[OF h(2)] obtain a b c where
    l: "pl = [a, b, c]" "a \<in> {CHR ''L'', CHR ''R''}" "b \<in> {CHR ''L'', CHR ''S'', CHR ''R''}"
       "c \<in> {CHR ''L'', CHR ''R''}" by blast
  have idx: "pl ! 0 = a" "pl ! 1 = b" "pl ! 2 = c" using l(1) by simp_all
  have A: "a \<in> {CHR ''L'', CHR ''S'', CHR ''R''}" using l(2) by blast
  have C: "c \<in> {CHR ''L'', CHR ''S'', CHR ''R''}" using l(4) by blast
  have g: "gds_solution xs port1 port2 path =
             Inr [spec_shape (pl ! 0) t (radius xs), spec_shape (pl ! 1) p (radius xs),
                  spec_shape (pl ! 2) q (radius xs)]"
    unfolding path idx by (rule gds_solution_three[OF nz A l(3) C])
  show ?thesis
    apply (rule exI[of _ alpha], rule exI[of _ beta], rule exI[of _ d], rule exI[of _ pl])
    apply (rule exI[of _ t], rule exI[of _ p], rule exI[of _ q])
    using h(1,2,3) path g by simp
qed

theorem three_segments_witness:
  "dubins_path \<lparr>radius = 1\<rparr> (0, 0, 0) (10, 0, 0) =
     Inr [(CHR ''L'', 0, 1), (CHR ''S'', 10, 1), (CHR ''L'', 0, 1)]
   \<and> gds_solution \<lparr>radius = 1\<rparr> \<lparr>center = (0, 0), orientation = 0\<rparr>
        \<lparr>center = (10000, 0), orientation = 180\<rparr>
        [(CHR ''L'', 0, 1), (CHR ''S'', 10, 1), (CHR ''L'', 0, 1)] =
       Inr [Bend 0, Straight 10, Bend 0]"
  using three_segments[OF dubins_path_eval_10,
          of "\<lparr>center = (0, 0), orientation = 0\<rparr>" "\<lparr>center = (10000, 0), orientation = 180\<rparr>"]
  by (simp add: dubins_path_eval_10)

subsection \<open>The selector\<close>

text \<open>
  C3: the selector runs over the six families in the order LSL, RSR, LSR, RSL, RLR, LRL
  and returns a feasible family whose cost \<open>t + p + q\<close> is strictly below the cost of every
  feasible family before it in that order and at most the cost of every feasible family
  after it: the family of minimum cost, and among several of minimum cost the earliest.
\<close>

theorem selector_first_minimum:
  "planners = [''LSL'', ''RSR'', ''LSR'', ''RSL'', ''RLR'', ''LRL'']
   \<and> (\<exists>earlier family later t p q.
         planners = earlier @ family # later
       \<and> general_planner family alpha beta d = Inr (Some ([t, p, q], family, t + p + q))
       \<and> best_loop planners alpha beta d best_init =
           Inr \<lparr>bt = Some t, bp = Some p, bq = Some q, bmode = Some family,
                bcost = Cost (t + p + q)\<rparr>
       \<and> (\<forall>other\<in>set earlier. \<forall>cost. family_cost other alpha beta d = Some cost
              \<longrightarrow> t + p + q < cost)
       \<and> (\<forall>other\<in>set later. \<forall>cost. family_cost other alpha beta d = Some cost
              \<longrightarrow> t + p + q \<le> cost))"
  using best_loop_planners[of alpha beta d] by (simp add: planners_def)

theorem selector_first_minimum_witness:
  "family_cost ''LSL'' 0 0 10 = Some 10 \<and> family_cost ''RSR'' 0 0 10 = Some 10
   \<and> family_cost ''LSR'' 0 0 10 = Some 10 \<and> family_cost ''RSL'' 0 0 10 = Some 10
   \<and> family_cost ''RLR'' 0 0 10 = None \<and> family_cost ''LRL'' 0 0 10 = None
   \<and> (\<exists>b. best_loop planners 0 0 10 best_init = Inr b \<and> bmode b = Some ''LSL''
          \<and> bcost b = Cost 10)"
proof -
  have fc: "family_cost ''LSL'' 0 0 10 = Some 10" "family_cost ''RSR'' 0 0 10 = Some 10"
    "family_cost ''LSR'' 0 0 10 = Some 10" "family_cost ''RSL'' 0 0 10 = Some 10"
    "family_cost ''RLR'' 0 0 10 = None" "family_cost ''LRL'' 0 0 10 = None"
    by (simp_all add: family_cost_def gp_eval_10)
  from selector_first_minimum[of 0 0 10] obtain earlier family later t p q where
    h: "planners = earlier @ family # later"
       "general_planner family 0 0 10 = Inr (Some ([t, p, q], family, t + p + q))"
       "best_loop planners 0 0 10 best_init =
           Inr \<lparr>bt = Some t, bp = Some p, bq = Some q, bmode = Some family,
                bcost = Cost (t + p + q)\<rparr>"
       "\<forall>other\<in>set earlier. \<forall>cost. family_cost other 0 0 10 = Some cost \<longrightarrow> t + p + q < cost"
       "\<forall>other\<in>set later. \<forall>cost. family_cost other 0 0 10 = Some cost \<longrightarrow> t + p + q \<le> cost"
    by blast
  have cost: "family_cost family 0 0 10 = Some (t + p + q)"
    using h(2) by (rule family_cost_Some)
  have mem: "family \<in> set planners" using h(1) by (metis in_set_conv_decomp)
  then have ten: "t + p + q = 10"
    using cost fc by (auto simp: planners_def)
  have "earlier = []"
  proof (cases earlier)
    case Nil
    then show ?thesis .
  next
    case (Cons x rest)
    with h(1) have "x = ''LSL''" by (simp add: planners_def)
    with Cons h(4) fc(1) have "t + p + q < 10" by simp
    with ten show ?thesis by simp
  qed
  with h(1) have "family = ''LSL''" by (simp add: planners_def)
  with h(3) ten fc show ?thesis by simp
qed


end
